theory Spec2Isabelle
  imports Complex_Main "HOL-Library.Sublist"
begin

section \<open>Data model of the cloud harvester\<close>

text \<open>
  The development embeds \<^verbatim>\<open>src/cloud_harvester.py\<close>: the class \<^verbatim>\<open>CloudHarvester\<close>
  with its two network callbacks, the interaction procedure and the two nested loops of
  \<^verbatim>\<open>start\<close>.  The browser engine, the credential sink, the clock and the JSON decoder
  are outside the file; every answer they give is an input of the model, and every call
  made to them is recorded in a trace of actions.  Line numbers refer to the source file.

  An exception is a value of type \<open>error\<close>; it stands for an instance of a subclass of
  \<^verbatim>\<open>Exception\<close>, which is what the handlers of the source catch.  Clock readings
  (\<^verbatim>\<open>time.time()\<close>) are exact real numbers of seconds; the rounding of floating-point
  subtraction is not modelled.  Printing and sleeping do not raise.
\<close>

datatype error = JSONDecodeError | OtherException string

text \<open>Python's \<^verbatim>\<open>a in b\<close> on strings: \<open>a\<close> occurs in \<open>b\<close> as a contiguous block.\<close>

fun str_in :: "string \<Rightarrow> string \<Rightarrow> bool" where
  "str_in sub [] = (sub = [])"
| "str_in sub (c # cs) = (prefix sub (c # cs) \<or> str_in sub cs)"

text \<open>Truthiness of an optional string: \<^verbatim>\<open>None\<close> and the empty string are falsy.\<close>

fun truthy :: "string option \<Rightarrow> bool" where
  "truthy None = False"
| "truthy (Some v) = (v \<noteq> [])"

text \<open>The attributes of \<^verbatim>\<open>self\<close> that the loops and callbacks read and write.
  \<open>page\<close> tells whether \<^verbatim>\<open>self.page\<close> has been assigned.\<close>

record SessionState =
  is_running :: bool
  last_harvest_time :: real
  current_cookies :: "string option"
  restart_requested :: bool
  refresh_needed :: bool
  last_login_retry_time :: real
  page :: bool

text \<open>\<^verbatim>\<open>__init__\<close> (lines 12-23); the argument is the value of the environment variable
  \<^verbatim>\<open>GOOGLE_COOKIES\<close>.\<close>

definition init :: "string option \<Rightarrow> SessionState" where
  "init env_cookies =
     \<lparr>is_running = False, last_harvest_time = 0, current_cookies = env_cookies,
      restart_requested = False, refresh_needed = False, last_login_retry_time = 0,
      page = False\<rparr>"

text \<open>The dictionary \<^verbatim>\<open>harvest_data\<close> handed to the credential sink.\<close>

record harvest_data =
  url :: string
  "method" :: string
  headers :: "(string \<times> string) list"
  body :: string

text \<open>What the engine hands to the callbacks.  \<^verbatim>\<open>url\<close>, \<^verbatim>\<open>method\<close>,
  \<^verbatim>\<open>headers\<close> and \<^verbatim>\<open>status\<close> are stored attributes; \<^verbatim>\<open>post_data\<close> decodes the
  body and can raise.\<close>

record response =
  resp_url :: string
  resp_status :: int

record request =
  req_url :: string
  req_method :: string
  req_headers :: "(string \<times> string) list"
  req_post_data :: "error + string option"

text \<open>One interception: the request, whether \<^verbatim>\<open>cred_manager.update\<close> raises, the clock
  reading taken after it, and whether \<^verbatim>\<open>route.continue_()\<close> raises.\<close>

record route =
  route_request :: request
  sink_update :: "error option"
  capture_time :: real
  continue_result :: "error option"

datatype selector = DialogContent | PopupClose | PopupGotIt | PopupOK | Editor

datatype script = ScrollDialog | CheckTerms | ClickAgree | ClearEditor

datatype message =
    NoCookiesAvailable | Starting | LoadedCookies nat | InvalidJSON | Navigating
  | NavigationFailed error | TokenExpiredRefreshing | PageReloaded | RefreshFailed error
  | RedirectedToLogin | CookiesExpired | PleaseExportFresh | Restarting
  | HarvesterError error | HarvesterStopped | ReceivedNewCookies
  | ApiReturned int | CapturedTarget | ErrorAnalyzing error
  | AttemptingTrigger | TermsDialogDetected | WaitingForEditor | EditorNotFound
  | SendingHello | InteractionFailed error

text \<open>What a route handler can do with a request.  The source only ever calls
  \<^verbatim>\<open>route.continue_()\<close> without overrides.\<close>

datatype route_call = ContinueUnmodified | ContinueWithOverrides | Abort | Fulfill

datatype action =
    Print message
  | Sleep real
  | SinkUpdate harvest_data
  | RouteCall route_call
  | StartPlaywright | Launch | NewContext | AddCookies | NewPage | InstallRoute
  | OnResponse | Goto | Reload | CloseBrowser | StopPlaywright
  | IsVisible selector | Evaluate script | WaitHidden selector nat
  | WaitVisible selector nat | Click selector | Fill selector string
  | Press selector string

type_synonym world = "SessionState \<times> action list"

definition emit :: "action list \<Rightarrow> world \<Rightarrow> world" where
  "emit as w = (fst w, snd w @ as)"

definition upd :: "(SessionState \<Rightarrow> SessionState) \<Rightarrow> world \<Rightarrow> world" where
  "upd f w = (f (fst w), snd w)"

section \<open>The callbacks\<close>

text \<open>\<^verbatim>\<open>handle_response\<close> (lines 129-137).  The second component is the exception
  that leaves the handler, if any.\<close>

definition handle_response :: "response \<Rightarrow> world \<Rightarrow> world \<times> error option" where
  "handle_response response w =
     (if str_in ''batchGraphql'' (resp_url response) then
        (if resp_status response \<in> set [401, 403] then
           (upd (\<lambda>s. s\<lparr>refresh_needed := True\<rparr>)
              (emit [Print (ApiReturned (resp_status response))] w), None)
         else (w, None))
      else (w, None))"

text \<open>\<^verbatim>\<open>handle_route\<close> (lines 139-158).  The \<^verbatim>\<open>try\<close> block is \<open>analyze\<close>; an
  exception in it is printed and dropped, and \<^verbatim>\<open>route.continue_()\<close> follows.\<close>

definition analyze :: "route \<Rightarrow> world \<Rightarrow> world \<times> error option" where
  "analyze r w =
     (let request = route_request r in
      case req_post_data request of
        Inl e \<Rightarrow> (w, Some e)
      | Inr None \<Rightarrow> (w, None)
      | Inr (Some post_data) \<Rightarrow>
          if post_data \<noteq> [] \<and>
             (str_in ''StreamGenerateContent'' post_data \<or>
              str_in ''generateContent'' post_data)
          then
            (let harvest_data = \<lparr>url = req_url request, method = req_method request,
                                 headers = req_headers request, body = post_data\<rparr>;
                 w1 = emit [Print CapturedTarget, SinkUpdate harvest_data] w
             in case sink_update r of
                  Some e \<Rightarrow> (w1, Some e)
                | None \<Rightarrow>
                    (upd (\<lambda>s. s\<lparr>last_harvest_time := capture_time r,
                                 last_login_retry_time := 0\<rparr>) w1, None))
          else (w, None))"

definition handle_route :: "route \<Rightarrow> world \<Rightarrow> world \<times> error option" where
  "handle_route r w =
     (let request = route_request r;
          w1 = (if str_in ''batchGraphql'' (req_url request) \<and> req_method request = ''POST''
                then (case analyze r w of
                        (w', None) \<Rightarrow> w'
                      | (w', Some e) \<Rightarrow> emit [Print (ErrorAnalyzing e)] w')
                else w)
      in (emit [RouteCall ContinueUnmodified] w1, continue_result r))"

text \<open>\<^verbatim>\<open>update_cookies\<close> (lines 25-29).\<close>

definition update_cookies :: "string \<Rightarrow> world \<Rightarrow> world" where
  "update_cookies new_cookies_json w =
     upd (\<lambda>s. s\<lparr>current_cookies := Some new_cookies_json, restart_requested := True\<rparr>)
       (emit [Print ReceivedNewCookies] w)"

section \<open>The interaction procedure\<close>

text \<open>The engine's answers to the calls of \<^verbatim>\<open>perform_harvest\<close>: \<open>None\<close> when a call
  returns, \<open>Some e\<close> when it raises \<open>e\<close>.  The source swallows the failures of
  \<open>scroll_eval\<close>, \<open>dialog_hidden\<close> and \<open>popup_click\<close>, so nothing depends on them.\<close>

record harvest_env =
  dialog_visible :: "error + bool"
  scroll_eval :: "error option"
  checkbox_eval :: "error option"
  agree_eval :: "error option"
  dialog_hidden :: "error option"
  popup_visible :: "selector \<Rightarrow> error + bool"
  popup_click :: "selector \<Rightarrow> error option"
  editor_wait :: "error option"
  editor_click :: "error option"
  clear_eval :: "error option"
  editor_fill :: "error option"
  editor_press :: "error option"

text \<open>Lines 170-192: the terms dialog.  Only the scroll and the final wait are wrapped
  in their own \<^verbatim>\<open>try\<close>; any other failure leaves the phase.\<close>

definition terms_dialog :: "harvest_env \<Rightarrow> action list \<times> error option" where
  "terms_dialog env =
     (case dialog_visible env of
        Inl e \<Rightarrow> ([IsVisible DialogContent], Some e)
      | Inr False \<Rightarrow> ([IsVisible DialogContent], None)
      | Inr True \<Rightarrow>
          (let a1 = [IsVisible DialogContent, Print TermsDialogDetected,
                     Evaluate ScrollDialog, Evaluate CheckTerms]
           in case checkbox_eval env of
                Some e \<Rightarrow> (a1, Some e)
              | None \<Rightarrow>
                  (let a2 = a1 @ [Sleep 1, Evaluate ClickAgree]
                   in case agree_eval env of
                        Some e \<Rightarrow> (a2, Some e)
                      | None \<Rightarrow> (a2 @ [WaitHidden DialogContent 3000], None))))"

text \<open>Lines 195-200: the other popups; every failure is swallowed.\<close>

definition popup_selectors :: "selector list" where
  "popup_selectors = [PopupClose, PopupGotIt, PopupOK]"

definition dismiss :: "harvest_env \<Rightarrow> selector \<Rightarrow> action list" where
  "dismiss env sel =
     (case popup_visible env sel of
        Inr True \<Rightarrow> [IsVisible sel, Click sel]
      | _ \<Rightarrow> [IsVisible sel])"

text \<open>Lines 203-223: the editor.  A failed wait prints and returns normally.\<close>

definition send_hello :: "harvest_env \<Rightarrow> action list \<times> error option" where
  "send_hello env =
     (let a0 = [Print WaitingForEditor, WaitVisible Editor 5000] in
      case editor_wait env of
        Some e \<Rightarrow> (a0 @ [Print EditorNotFound], None)
      | None \<Rightarrow>
         (let a1 = a0 @ [Click Editor] in
          case editor_click env of Some e \<Rightarrow> (a1, Some e) | None \<Rightarrow>
         (let a2 = a1 @ [Evaluate ClearEditor] in
          case clear_eval env of Some e \<Rightarrow> (a2, Some e) | None \<Rightarrow>
         (let a3 = a2 @ [Fill Editor ''Hello''] in
          case editor_fill env of Some e \<Rightarrow> (a3, Some e) | None \<Rightarrow>
         (let a4 = a3 @ [Sleep (1/2), Print SendingHello, Press Editor ''Enter''] in
          case editor_press env of Some e \<Rightarrow> (a4, Some e) | None \<Rightarrow>
            (a4 @ [Sleep 3], None))))))"

text \<open>The body of the outer \<^verbatim>\<open>try\<close> of \<^verbatim>\<open>perform_harvest\<close>.\<close>

definition interaction :: "harvest_env \<Rightarrow> action list \<times> error option" where
  "interaction env =
     (case terms_dialog env of
        (a1, Some e) \<Rightarrow> (a1, Some e)
      | (a1, None) \<Rightarrow>
          (let a2 = a1 @ concat (map (dismiss env) popup_selectors)
           in case send_hello env of (a3, r) \<Rightarrow> (a2 @ a3, r)))"

text \<open>\<^verbatim>\<open>perform_harvest\<close> (lines 160-226).  It assigns no attribute of \<^verbatim>\<open>self\<close>.\<close>

definition perform_harvest :: "harvest_env \<Rightarrow> world \<Rightarrow> world" where
  "perform_harvest env w =
     (let w0 = emit [Print AttemptingTrigger] w in
      if \<not> page (fst w0) then w0
      else case interaction env of
             (as, None) \<Rightarrow> emit as w0
           | (as, Some e) \<Rightarrow> emit (as @ [Print (InteractionFailed e)]) w0)"

section \<open>Events between suspension points\<close>

text \<open>
  The callbacks run on the same cooperative scheduler as the loops, so they run only while
  the loop code is suspended in an \<^verbatim>\<open>await\<close>.  Each awaited call therefore comes with
  the list of events the scheduler dispatches before the call returns.
\<close>

datatype event =
    ResponseEvent response
  | RouteEvent route
  | CookiesEvent string
  | StopEvent

text \<open>Modelled from the spec: the explicit stop request.  The source has no method for
  it; the owner of the object clears \<^verbatim>\<open>is_running\<close>.\<close>

definition stop :: "world \<Rightarrow> world" where
  "stop w = upd (\<lambda>s. s\<lparr>is_running := False\<rparr>) w"

text \<open>An exception that leaves a callback goes to the engine's dispatcher, not to the
  suspended loop.\<close>

fun dispatch :: "event \<Rightarrow> world \<Rightarrow> world" where
  "dispatch (ResponseEvent r) w = fst (handle_response r w)"
| "dispatch (RouteEvent r) w = fst (handle_route r w)"
| "dispatch (CookiesEvent c) w = update_cookies c w"
| "dispatch StopEvent w = stop w"

definition deliver :: "event list \<Rightarrow> world \<Rightarrow> world" where
  "deliver evs w = fold dispatch evs w"

text \<open>An awaited engine call: the call is made, events are dispatched, and the call
  returns (\<open>None\<close>) or raises.\<close>

type_synonym awaited = "event list \<times> error option"

definition call :: "action \<Rightarrow> awaited \<Rightarrow> world \<Rightarrow> world \<times> error option" where
  "call a r w = (deliver (fst r) (emit [a] w), snd r)"

definition sleep :: "real \<Rightarrow> event list \<Rightarrow> world \<Rightarrow> world" where
  "sleep d evs w = deliver evs (emit [Sleep d] w)"

text \<open>\<^verbatim>\<open>await self.perform_harvest()\<close>.  The procedure reads only \<^verbatim>\<open>self.page\<close>, which
  no callback assigns, so the events of all its suspension points are dispatched after
  it; in the trace the callbacks' actions follow the procedure's.\<close>

definition run_harvest :: "harvest_env \<times> event list \<Rightarrow> world \<Rightarrow> world" where
  "run_harvest h w = deliver (snd h) (perform_harvest (fst h) w)"

section \<open>The liveness loop\<close>

text \<open>What the engine, the clock and the sink answer during one pass of the inner loop
  (lines 78-116).\<close>

record tick_env =
  reload :: awaited
  refresh_sleep :: "event list"
  refresh_harvest :: "harvest_env \<times> event list"
  page_url :: string
  page_title :: "event list \<times> (error + string)"
  login_time :: real
  login_goto :: awaited
  login_sleep :: "event list"
  harvest_time :: real
  latest_harvest :: bool
  harvest :: "harvest_env \<times> event list"
  poll_sleep :: "event list"

datatype tick_result = Next | Break | Raise error

text \<open>Case C (lines 113-116).\<close>

definition harvest_branch :: "tick_env \<Rightarrow> world \<Rightarrow> world \<times> tick_result" where
  "harvest_branch env w =
     (let w1 = (if harvest_time env - last_harvest_time (fst w) > 2700 \<or> \<not> latest_harvest env
                then run_harvest (harvest env) w else w)
      in (sleep 5 (poll_sleep env) w1, Next))"

text \<open>Case B once the login page has been recognised (lines 95-110).  The
  \<^verbatim>\<open>continue\<close> is inside the \<^verbatim>\<open>try\<close>: when \<^verbatim>\<open>goto\<close> raises, the handler is
  \<^verbatim>\<open>pass\<close> and control reaches case C.\<close>

definition login_branch :: "tick_env \<Rightarrow> world \<Rightarrow> world \<times> tick_result" where
  "login_branch env w =
     (let current_time = login_time env in
      if current_time - last_login_retry_time (fst w) > 60 then
        (let w1 = upd (\<lambda>s. s\<lparr>last_login_retry_time := current_time\<rparr>)
                    (emit [Print RedirectedToLogin] w)
         in case call Goto (login_goto env) w1 of
              (w2, None) \<Rightarrow> (sleep 5 (login_sleep env) w2, Next)
            | (w2, Some e) \<Rightarrow> harvest_branch env w2)
      else (emit [Print CookiesExpired, Print PleaseExportFresh] w, Break))"

text \<open>Case A (lines 81-91).\<close>

definition refresh_branch :: "tick_env \<Rightarrow> world \<Rightarrow> world \<times> tick_result" where
  "refresh_branch env w =
     (case call Reload (reload env) (emit [Print TokenExpiredRefreshing] w) of
        (w1, Some e) \<Rightarrow> (emit [Print (RefreshFailed e)] w1, Next)
      | (w1, None) \<Rightarrow>
          (let w2 = upd (\<lambda>s. s\<lparr>refresh_needed := False\<rparr>) (emit [Print PageReloaded] w1);
               w3 = sleep 5 (refresh_sleep env) w2
           in (run_harvest (refresh_harvest env) w3, Next)))"

text \<open>The world in which the login test is decided: \<^verbatim>\<open>self.page.title()\<close> is awaited
  only when the URL does not already name the identity provider.\<close>

definition at_login_test :: "tick_env \<Rightarrow> world \<Rightarrow> world" where
  "at_login_test env w =
     (if str_in ''accounts.google.com'' (page_url env) then w
      else deliver (fst (page_title env)) w)"

definition tick :: "tick_env \<Rightarrow> world \<Rightarrow> world \<times> tick_result" where
  "tick env w =
     (if refresh_needed (fst w) then refresh_branch env w
      else if str_in ''accounts.google.com'' (page_url env) then login_branch env w
      else (let w1 = deliver (fst (page_title env)) w in
            case snd (page_title env) of
              Inl e \<Rightarrow> (w1, Raise e)
            | Inr title \<Rightarrow>
                if str_in ''Sign in'' title then login_branch env w1
                else harvest_branch env w1))"

text \<open>How the inner \<^verbatim>\<open>while\<close> ends.  The list of passes is the fuel: \<open>Starved\<close> means
  the loop was still running when the list ended.\<close>

datatype loop_exit = ConditionFalse | Expired | Raised error | Starved

fun liveness_loop :: "tick_env list \<Rightarrow> world \<Rightarrow> world \<times> loop_exit" where
  "liveness_loop [] w =
     (if \<not> (is_running (fst w) \<and> \<not> restart_requested (fst w)) then (w, ConditionFalse)
      else (w, Starved))"
| "liveness_loop (t # ts) w =
     (if \<not> (is_running (fst w) \<and> \<not> restart_requested (fst w)) then (w, ConditionFalse)
      else case tick t w of
             (w', Next) \<Rightarrow> liveness_loop ts w'
           | (w', Break) \<Rightarrow> (w', Expired)
           | (w', Raise e) \<Rightarrow> (w', Raised e))"

section \<open>The session loop\<close>

text \<open>The value \<^verbatim>\<open>json.loads\<close> returns.  The decoder itself is a parameter of the
  model.\<close>

datatype json =
    JNull | JBool bool | JNumber real | JString string
  | JArray "json list" | JObject "(string \<times> json) list"

fun py_len :: "json \<Rightarrow> error + nat" where
  "py_len (JString v) = Inr (length v)"
| "py_len (JArray vs) = Inr (length vs)"
| "py_len (JObject kvs) = Inr (length (remdups (map fst kvs)))"
| "py_len _ = Inl (OtherException ''TypeError'')"

text \<open>What the engine answers during one pass of the outer loop (lines 43-124).\<close>

record session_env =
  playwright_start :: awaited
  launch :: awaited
  new_context :: awaited
  add_cookies :: awaited
  decode_sleep :: "event list"
  new_page :: awaited
  install_route :: awaited
  first_goto :: awaited
  ticks :: "tick_env list"
  close_browser :: awaited
  playwright_stop :: awaited
  backoff_sleep :: "event list"

text \<open>How a statement ends: normally, by \<^verbatim>\<open>continue\<close>, by an exception, or because the
  inner loop used up its fuel.\<close>

datatype flow = Normal | Continue | Throw error | Starving

fun steps :: "(world \<Rightarrow> world \<times> flow) list \<Rightarrow> world \<Rightarrow> world \<times> flow" where
  "steps [] w = (w, Normal)"
| "steps (f # fs) w = (case f w of (w', Normal) \<Rightarrow> steps fs w' | r \<Rightarrow> r)"

definition engine :: "action \<Rightarrow> awaited \<Rightarrow> world \<Rightarrow> world \<times> flow" where
  "engine a r w = (case call a r w of (w', None) \<Rightarrow> (w', Normal) | (w', Some e) \<Rightarrow> (w', Throw e))"

definition plain :: "(world \<Rightarrow> world) \<Rightarrow> world \<Rightarrow> world \<times> flow" where
  "plain f w = (f w, Normal)"

text \<open>Lines 52-54, the body of the \<^verbatim>\<open>try\<close> around the cookies.\<close>

definition decode_and_add ::
  "(string \<Rightarrow> error + json) \<Rightarrow> session_env \<Rightarrow> string \<Rightarrow> world \<Rightarrow> world \<times> error option" where
  "decode_and_add loads env c w =
     (case loads c of
        Inl e \<Rightarrow> (w, Some e)
      | Inr cookies \<Rightarrow>
          (case call AddCookies (add_cookies env) w of
             (w1, Some e) \<Rightarrow> (w1, Some e)
           | (w1, None) \<Rightarrow>
               (case py_len cookies of
                  Inl e \<Rightarrow> (w1, Some e)
                | Inr n \<Rightarrow> (emit [Print (LoadedCookies n)] w1, None))))"

text \<open>Lines 50-59.\<close>

definition load_cookies ::
  "(string \<Rightarrow> error + json) \<Rightarrow> session_env \<Rightarrow> world \<Rightarrow> world \<times> flow" where
  "load_cookies loads env w =
     (case current_cookies (fst w) of
        None \<Rightarrow> (w, Normal)
      | Some c \<Rightarrow>
          if c = [] then (w, Normal)
          else (case decode_and_add loads env c w of
                  (w1, None) \<Rightarrow> (w1, Normal)
                | (w1, Some e) \<Rightarrow>
                    if e = JSONDecodeError then
                      (sleep 10 (decode_sleep env)
                         (upd (\<lambda>s. s\<lparr>current_cookies := None\<rparr>) (emit [Print InvalidJSON] w1)),
                       Continue)
                    else (w1, Throw e)))"

text \<open>Line 61.\<close>

definition open_page :: "session_env \<Rightarrow> world \<Rightarrow> world \<times> flow" where
  "open_page env w =
     (case call NewPage (new_page env) w of
        (w1, None) \<Rightarrow> (upd (\<lambda>s. s\<lparr>page := True\<rparr>) w1, Normal)
      | (w1, Some e) \<Rightarrow> (w1, Throw e))"

text \<open>Lines 68-72: a failed first navigation is printed and the pass goes on.\<close>

definition navigate :: "session_env \<Rightarrow> world \<Rightarrow> world \<times> flow" where
  "navigate env w =
     (case call Goto (first_goto env) (emit [Print Navigating] w) of
        (w1, None) \<Rightarrow> (w1, Normal)
      | (w1, Some e) \<Rightarrow> (emit [Print (NavigationFailed e)] w1, Normal))"

text \<open>Lines 78-116 seen from the outer loop: both exits of the \<^verbatim>\<open>while\<close> reach line
  118.\<close>

definition run_liveness :: "session_env \<Rightarrow> world \<Rightarrow> world \<times> flow" where
  "run_liveness env w =
     (case liveness_loop (ticks env) w of
        (w1, ConditionFalse) \<Rightarrow> (w1, Normal)
      | (w1, Expired) \<Rightarrow> (w1, Normal)
      | (w1, Raised e) \<Rightarrow> (w1, Throw e)
      | (w1, Starved) \<Rightarrow> (w1, Starving))"

text \<open>Lines 45-120, the block under \<^verbatim>\<open>async with\<close>.\<close>

definition with_block ::
  "(string \<Rightarrow> error + json) \<Rightarrow> session_env \<Rightarrow> world \<Rightarrow> world \<times> flow" where
  "with_block loads env =
     steps
       [engine Launch (launch env),
        engine NewContext (new_context env),
        load_cookies loads env,
        open_page env,
        engine InstallRoute (install_route env),
        plain (emit [OnResponse]),
        navigate env,
        plain (upd (\<lambda>s. s\<lparr>restart_requested := False, refresh_needed := False\<rparr>)),
        run_liveness env,
        engine CloseBrowser (close_browser env),
        plain (\<lambda>w. if restart_requested (fst w) then emit [Print Restarting] w else w)]"

text \<open>Line 44 with its block: entering the context manager, the block, and leaving it,
  which happens however the block ends.\<close>

definition session_body ::
  "(string \<Rightarrow> error + json) \<Rightarrow> session_env \<Rightarrow> world \<Rightarrow> world \<times> flow" where
  "session_body loads env w =
     (case engine StartPlaywright (playwright_start env) w of
        (w1, Normal) \<Rightarrow>
          (case with_block loads env w1 of
             (w2, Starving) \<Rightarrow> (w2, Starving)
           | (w2, x) \<Rightarrow>
               (case engine StopPlaywright (playwright_stop env) w2 of
                  (w3, Normal) \<Rightarrow> (w3, x)
                | r \<Rightarrow> r))
      | r \<Rightarrow> r)"

text \<open>Lines 43 and 122-124: the \<^verbatim>\<open>try\<close> of the outer loop and its handler.\<close>

definition session_iteration ::
  "(string \<Rightarrow> error + json) \<Rightarrow> session_env \<Rightarrow> world \<Rightarrow> world \<times> flow" where
  "session_iteration loads env w =
     (case session_body loads env w of
        (w1, Throw e) \<Rightarrow>
          (sleep 10 (backoff_sleep env) (emit [Print (HarvesterError e)] w1), Normal)
      | r \<Rightarrow> r)"

text \<open>How \<^verbatim>\<open>start\<close> ends.  The list of passes is the fuel of the outer loop.\<close>

datatype outcome = Returned | OutOfFuel | Crashed error

fun session_loop ::
  "(string \<Rightarrow> error + json) \<Rightarrow> session_env list \<Rightarrow> world \<Rightarrow> world \<times> outcome" where
  "session_loop loads [] w =
     (if \<not> is_running (fst w) then (emit [Print HarvesterStopped] w, Returned)
      else (w, OutOfFuel))"
| "session_loop loads (env # envs) w =
     (if \<not> is_running (fst w) then (emit [Print HarvesterStopped] w, Returned)
      else case session_iteration loads env w of
             (w', Starving) \<Rightarrow> (w', OutOfFuel)
           | (w', Throw e) \<Rightarrow> (w', Crashed e)
           | (w', _) \<Rightarrow> session_loop loads envs w')"

text \<open>\<^verbatim>\<open>start\<close> (lines 31-126).\<close>

definition start ::
  "(string \<Rightarrow> error + json) \<Rightarrow> session_env list \<Rightarrow> world \<Rightarrow> world \<times> outcome" where
  "start loads envs w =
     (if is_running (fst w) then (w, Returned)
      else
        (let w1 = (if \<not> truthy (current_cookies (fst w))
                   then emit [Print NoCookiesAvailable] w else w);
             w2 = upd (\<lambda>s. s\<lparr>is_running := True\<rparr>) (emit [Print Starting] w1)
         in session_loop loads envs w2))"

section \<open>Vocabulary of the properties\<close>

text \<open>A request the interceptor captures: the conditions of lines 141 and 144, with
  body \<open>b\<close>.\<close>

definition qualifies :: "request \<Rightarrow> string \<Rightarrow> bool" where
  "qualifies q b \<longleftrightarrow>
     str_in ''batchGraphql'' (req_url q) \<and> req_method q = ''POST'' \<and>
     req_post_data q = Inr (Some b) \<and>
     (str_in ''StreamGenerateContent'' b \<or> str_in ''generateContent'' b)"

text \<open>The response observer's condition (lines 132-133).\<close>

definition unauthorized :: "response \<Rightarrow> bool" where
  "unauthorized r \<longleftrightarrow>
     str_in ''batchGraphql'' (resp_url r) \<and> (resp_status r = 401 \<or> resp_status r = 403)"

fun is_route_call :: "action \<Rightarrow> bool" where
  "is_route_call (RouteCall c) = True"
| "is_route_call a = False"

text \<open>Actions recorded by the callbacks, as opposed to those of the loops and of the
  interaction procedure.\<close>

fun by_callback :: "action \<Rightarrow> bool" where
  "by_callback (Print (ApiReturned n)) = True"
| "by_callback (Print CapturedTarget) = True"
| "by_callback (Print (ErrorAnalyzing e)) = True"
| "by_callback (Print ReceivedNewCookies) = True"
| "by_callback (SinkUpdate d) = True"
| "by_callback (RouteCall c) = True"
| "by_callback a = False"

definition loop_actions :: "action list \<Rightarrow> action list" where
  "loop_actions tr = filter (\<lambda>a. \<not> by_callback a) tr"

text \<open>The actions \<^verbatim>\<open>perform_harvest\<close> records after its first print.\<close>

fun ui_action :: "action \<Rightarrow> bool" where
  "ui_action (IsVisible sel) = True"
| "ui_action (Evaluate js) = True"
| "ui_action (WaitHidden sel ms) = True"
| "ui_action (WaitVisible sel ms) = True"
| "ui_action (Click sel) = True"
| "ui_action (Fill sel v) = True"
| "ui_action (Press sel k) = True"
| "ui_action (Sleep d) = (d = 1 \<or> d = 1/2 \<or> d = 3)"
| "ui_action (Print TermsDialogDetected) = True"
| "ui_action (Print WaitingForEditor) = True"
| "ui_action (Print EditorNotFound) = True"
| "ui_action (Print SendingHello) = True"
| "ui_action (Print (InteractionFailed e)) = True"
| "ui_action a = False"

text \<open>Typing into the editor or submitting it.\<close>

fun input_action :: "action \<Rightarrow> bool" where
  "input_action (Fill sel v) = True"
| "input_action (Press sel k) = True"
| "input_action a = False"

text \<open>The number of times \<^verbatim>\<open>perform_harvest\<close> was entered: its first statement is the
  print counted here.\<close>

definition invocations :: "action list \<Rightarrow> nat" where
  "invocations tr = length (filter (\<lambda>a. a = Print AttemptingTrigger) tr)"

text \<open>The state the callbacks leave after a list of events.\<close>

definition state_after :: "event list \<Rightarrow> SessionState \<Rightarrow> SessionState" where
  "state_after evs s = fst (deliver evs (s, []))"



subsection \<open>Concrete inputs\<close>

definition state0 :: SessionState where
  "state0 = \<lparr>is_running = True, last_harvest_time = 0, current_cookies = None,
            restart_requested = False, refresh_needed = False,
            last_login_retry_time = 1000, page = True\<rparr>"

definition request0 :: request where
  "request0 = \<lparr>req_url = ''https://c/batchGraphql'', req_method = ''POST'',
              req_headers = [(''cookie'', ''sid=1'')],
              req_post_data = Inr (Some ''{generateContent}'')\<rparr>"

definition route0 :: route where
  "route0 = \<lparr>route_request = request0, sink_update = None, capture_time = 5000,
            continue_result = None\<rparr>"

definition route_sink_down :: route where
  "route_sink_down = route0\<lparr>sink_update := Some (OtherException ''sink'')\<rparr>"

definition route_undecodable :: route where
  "route_undecodable =
     route0\<lparr>route_request := request0\<lparr>req_post_data := Inl (OtherException ''utf-8'')\<rparr>\<rparr>"

definition response401 :: response where
  "response401 = \<lparr>resp_url = ''https://c/batchGraphql'', resp_status = 401\<rparr>"

definition response200 :: response where
  "response200 = \<lparr>resp_url = ''https://c/batchGraphql'', resp_status = 200\<rparr>"

definition quiet_page :: harvest_env where
  "quiet_page = \<lparr>dialog_visible = Inr False, scroll_eval = None, checkbox_eval = None,
      agree_eval = None, dialog_hidden = None, popup_visible = (\<lambda>sel. Inr False),
      popup_click = (\<lambda>sel. None), editor_wait = None, editor_click = None,
      clear_eval = None, editor_fill = None, editor_press = None\<rparr>"

definition stuck_page :: harvest_env where
  "stuck_page = quiet_page\<lparr>editor_wait := Some (OtherException ''Timeout'')\<rparr>"

definition tick0 :: tick_env where
  "tick0 = \<lparr>reload = ([], None), refresh_sleep = [], refresh_harvest = (stuck_page, []),
     page_url = ''https://c/vertex'', page_title = ([], Inr ''Vertex AI''),
     login_time = 2000, login_goto = ([], None), login_sleep = [],
     harvest_time = 5000, latest_harvest = True, harvest = (stuck_page, []),
     poll_sleep = []\<rparr>"



definition setup_events :: "session_env \<Rightarrow> event list" where
  "setup_events env = fst (playwright_start env) @ fst (launch env) @ fst (new_context env)"

definition toy_loads :: "string \<Rightarrow> error + json" where
  "toy_loads c = (if c = ''[]'' then Inr (JArray []) else Inl JSONDecodeError)"

definition session0 :: session_env where
  "session0 = \<lparr>playwright_start = ([], None), launch = ([], None), new_context = ([], None),
     add_cookies = ([], None), decode_sleep = [], new_page = ([], None),
     install_route = ([], None), first_goto = ([], None), ticks = [],
     close_browser = ([], None), playwright_stop = ([], None), backoff_sleep = []\<rparr>"




subsection \<open>Stop requests\<close>

text \<open>All events of one pass of the inner and of the outer loop.\<close>

definition tick_events :: "tick_env \<Rightarrow> event list" where
  "tick_events env =
     fst (reload env) @ refresh_sleep env @ snd (refresh_harvest env) @ fst (page_title env) @
     fst (login_goto env) @ login_sleep env @ snd (harvest env) @ poll_sleep env"

definition session_events :: "session_env \<Rightarrow> event list" where
  "session_events env =
     fst (playwright_start env) @ fst (launch env) @ fst (new_context env) @
     fst (add_cookies env) @ decode_sleep env @ fst (new_page env) @
     fst (install_route env) @ fst (first_goto env) @ concat (map tick_events (ticks env)) @
     fst (close_browser env) @ fst (playwright_stop env) @ backoff_sleep env"

text \<open>No stop request arrives during the pass.\<close>

definition unstopped :: "session_env \<Rightarrow> bool" where
  "unstopped env \<longleftrightarrow> StopEvent \<notin> set (session_events env)"

definition keeps_running :: "(world \<Rightarrow> world \<times> 'a) \<Rightarrow> bool" where
  "keeps_running f \<longleftrightarrow> (\<forall>w. is_running (fst w) \<longrightarrow> is_running (fst (fst (f w))))"

section \<open>Basic facts\<close>

lemma str_in_sublist: "str_in sub s \<longleftrightarrow> sublist sub s"
  by (induction s) (auto simp: sublist_Cons_right)

lemma fst_emit [simp]: "fst (emit as w) = fst w"
  by (simp add: emit_def)

lemma snd_emit [simp]: "snd (emit as w) = snd w @ as"
  by (simp add: emit_def)

lemma fst_upd [simp]: "fst (upd f w) = f (fst w)"
  by (simp add: upd_def)

lemma snd_upd [simp]: "snd (upd f w) = snd w"
  by (simp add: upd_def)

lemma analyze_route_calls:
  "filter is_route_call (snd (fst (analyze r w))) = filter is_route_call (snd w)"
  by (simp add: analyze_def Let_def split: sum.split option.split)

lemma qualifies_nonempty: "qualifies q b \<Longrightarrow> b \<noteq> []"
  by (auto simp: qualifies_def)

lemmas example_defs =
  state0_def request0_def route0_def route_sink_down_def route_undecodable_def
  response401_def response200_def

section \<open>Callbacks leave the loops' actions alone\<close>

lemma loop_actions_append [simp]: "loop_actions (as @ bs) = loop_actions as @ loop_actions bs"
  by (simp add: loop_actions_def)

lemma loop_actions_Nil [simp]: "loop_actions [] = []"
  by (simp add: loop_actions_def)

lemma loop_actions_Cons [simp]:
  "loop_actions (a # as) = (if by_callback a then loop_actions as else a # loop_actions as)"
  by (simp add: loop_actions_def)

lemma ui_not_callback: "ui_action a \<Longrightarrow> \<not> by_callback a"
  by (induction a rule: ui_action.induct) simp_all

lemma loop_actions_ui: "list_all ui_action as \<Longrightarrow> loop_actions as = as"
  by (induction as) (auto simp: ui_not_callback)

lemma deliver_Nil [simp]: "deliver [] w = w"
  by (simp add: deliver_def)

lemma deliver_Cons [simp]: "deliver (ev # evs) w = deliver evs (dispatch ev w)"
  by (simp add: deliver_def)

lemma deliver_append: "deliver (evs @ evs') w = deliver evs' (deliver evs w)"
  by (simp add: deliver_def)

lemma analyze_trace:
  "loop_actions (snd (fst (analyze r w))) = loop_actions (snd w)"
  by (simp add: analyze_def Let_def split: sum.split option.split)

lemma handle_route_trace:
  "loop_actions (snd (fst (handle_route r w))) = loop_actions (snd w)"
proof (cases "analyze r w")
  case (Pair w' x)
  with analyze_trace [of r w] show ?thesis
    by (cases x) (simp_all add: handle_route_def Let_def)
qed

lemma dispatch_trace: "loop_actions (snd (dispatch ev w)) = loop_actions (snd w)"
  by (cases ev) (simp_all add: handle_route_trace handle_response_def update_cookies_def stop_def)

lemma deliver_trace [simp]: "loop_actions (snd (deliver evs w)) = loop_actions (snd w)"
  by (induction evs arbitrary: w) (simp_all add: dispatch_trace)

lemma analyze_state: "fst (fst (analyze r (s, tr))) = fst (fst (analyze r (s, [])))"
  by (simp add: analyze_def Let_def split: sum.split option.split)

lemma analyze_raise: "snd (analyze r (s, tr)) = snd (analyze r (s, []))"
  by (simp add: analyze_def Let_def split: sum.split option.split)

lemma handle_route_state: "fst (fst (handle_route r (s, tr))) = fst (fst (handle_route r (s, [])))"
  using analyze_state [of r s tr] analyze_raise [of r s tr]
  by (auto simp: handle_route_def Let_def split: prod.splits option.splits)

lemma dispatch_state: "fst (dispatch ev (s, tr)) = fst (dispatch ev (s, []))"
proof (cases ev)
  case (RouteEvent r)
  then show ?thesis using handle_route_state [of r s tr] by simp
qed (simp_all add: handle_response_def update_cookies_def stop_def)

lemma deliver_state [simp]: "fst (deliver evs w) = state_after evs (fst w)"
  unfolding state_after_def
proof (induction evs arbitrary: w)
  case Nil
  show ?case by simp
next
  case (Cons ev evs)
  have "fst (deliver evs (dispatch ev w)) = fst (deliver evs (fst (dispatch ev w), []))"
    by (rule Cons.IH)
  also have "fst (dispatch ev w) = fst (dispatch ev (fst w, []))"
    using dispatch_state [of ev "fst w" "snd w"] by simp
  also have "fst (deliver evs (fst (dispatch ev (fst w, [])), [])) =
             fst (deliver evs (dispatch ev (fst w, [])))"
    by (rule Cons.IH [symmetric])
  finally show ?case by simp
qed

lemma state_after_Nil [simp]: "state_after [] s = s"
  by (simp add: state_after_def)

lemma state_after_append: "state_after (evs @ evs') s = state_after evs' (state_after evs s)"
  by (metis deliver_append deliver_state state_after_def)

section \<open>The trace of the interaction procedure\<close>

lemma terms_dialog_ui: "list_all ui_action (fst (terms_dialog env))"
  by (simp add: terms_dialog_def Let_def split: sum.split bool.split option.split)

lemma dismiss_ui: "list_all ui_action (dismiss env sel)"
  by (simp add: dismiss_def split: sum.split bool.split)

lemma send_hello_ui: "list_all ui_action (fst (send_hello env))"
  by (simp add: send_hello_def Let_def split: option.split)

lemma interaction_ui: "list_all ui_action (fst (interaction env))"
  using terms_dialog_ui [of env] send_hello_ui [of env]
  by (auto simp: interaction_def Let_def popup_selectors_def dismiss_ui
      split: prod.split option.split)

lemma perform_harvest_state [simp]: "fst (perform_harvest env w) = fst w"
  by (simp add: perform_harvest_def Let_def split: prod.split option.split)

lemma perform_harvest_trace:
  "\<exists>as. list_all ui_action as \<and>
        snd (perform_harvest env w) = snd w @ Print AttemptingTrigger # as"
proof (cases "page (fst w)")
  case False
  then show ?thesis by (simp add: perform_harvest_def Let_def)
next
  case True
  obtain as r where i: "interaction env = (as, r)" by (cases "interaction env")
  with interaction_ui [of env] have "list_all ui_action as" by simp
  with True i show ?thesis
    by (cases r) (simp_all add: perform_harvest_def Let_def)
qed

lemma ui_not_attempting: "list_all ui_action as \<Longrightarrow> invocations as = 0"
  by (induction as) (auto simp: invocations_def)

lemma invocations_append [simp]: "invocations (as @ bs) = invocations as + invocations bs"
  by (simp add: invocations_def)

lemma invocations_loop_actions [simp]: "invocations (loop_actions tr) = invocations tr"
  by (induction tr) (auto simp: invocations_def)

lemma invocations_deliver [simp]: "invocations (snd (deliver evs w)) = invocations (snd w)"
  using invocations_loop_actions [of "snd (deliver evs w)"] by simp

lemma invocations_perform_harvest [simp]:
  "invocations (snd (perform_harvest env w)) = Suc (invocations (snd w))"
proof -
  obtain as where "list_all ui_action as"
    and "snd (perform_harvest env w) = snd w @ Print AttemptingTrigger # as"
    using perform_harvest_trace by blast
  then show ?thesis
    using ui_not_attempting [of as] by (simp add: invocations_def)
qed

section \<open>Facts about one pass of the liveness loop\<close>

lemma send_hello_failed_wait:
  "editor_wait env = Some e \<Longrightarrow>
     send_hello env = ([Print WaitingForEditor, WaitVisible Editor 5000, Print EditorNotFound], None)"
  by (simp add: send_hello_def)

lemma terms_dialog_no_input: "filter input_action (fst (terms_dialog env)) = []"
  by (simp add: terms_dialog_def Let_def split: sum.split bool.split option.split)

lemma dismiss_no_input: "filter input_action (dismiss env sel) = []"
  by (simp add: dismiss_def split: sum.split bool.split)

lemma analyze_refresh: "refresh_needed (fst (fst (analyze r w))) = refresh_needed (fst w)"
  by (simp add: analyze_def Let_def split: sum.split option.split)

lemma handle_route_refresh:
  "refresh_needed (fst (fst (handle_route r w))) = refresh_needed (fst w)"
  using analyze_refresh [of r w]
  by (auto simp: handle_route_def Let_def split: prod.splits option.splits)

lemma dispatch_refresh:
  "refresh_needed (fst w) \<Longrightarrow> refresh_needed (fst (dispatch ev w))"
  by (cases ev) (simp_all add: handle_route_refresh handle_response_def update_cookies_def stop_def)

lemma deliver_refresh:
  "refresh_needed (fst w) \<Longrightarrow> refresh_needed (fst (deliver evs w))"
proof (induction evs arbitrary: w)
  case Nil
  then show ?case by simp
next
  case (Cons ev evs)
  from Cons.prems have "refresh_needed (fst (dispatch ev w))" by (rule dispatch_refresh)
  then have "refresh_needed (fst (deliver evs (dispatch ev w)))" by (rule Cons.IH)
  then show ?case by (simp del: deliver_state)
qed

lemma state_after_refresh: "refresh_needed s \<Longrightarrow> refresh_needed (state_after evs s)"
  using deliver_refresh [of "(s, [])" evs] by (simp add: state_after_def del: deliver_state)

lemma fst_sleep [simp]: "fst (sleep d evs w) = state_after evs (fst w)"
  by (simp add: sleep_def)

lemma trace_sleep [simp]: "loop_actions (snd (sleep d evs w)) = loop_actions (snd w) @ [Sleep d]"
  by (simp add: sleep_def)

lemma invocations_Nil [simp]: "invocations [] = 0"
  by (simp add: invocations_def)

lemma invocations_Cons [simp]:
  "invocations (a # as) =
     (if a = Print AttemptingTrigger then Suc (invocations as) else invocations as)"
  by (simp add: invocations_def)

lemma invocations_sleep [simp]: "invocations (snd (sleep d evs w)) = invocations (snd w)"
  by (simp add: sleep_def)

lemma fst_run_harvest [simp]: "fst (run_harvest h w) = state_after (snd h) (fst w)"
  by (simp add: run_harvest_def)

lemma invocations_run_harvest [simp]:
  "invocations (snd (run_harvest h w)) = Suc (invocations (snd w))"
  by (simp add: run_harvest_def)

lemma trace_run_harvest:
  "\<exists>as. list_all ui_action as \<and>
        loop_actions (snd (run_harvest h w)) = loop_actions (snd w) @ Print AttemptingTrigger # as"
proof -
  obtain as where a: "list_all ui_action as"
    and b: "snd (perform_harvest (fst h) w) = snd w @ Print AttemptingTrigger # as"
    using perform_harvest_trace by blast
  from a b have "loop_actions (snd (run_harvest h w)) =
      loop_actions (snd w) @ Print AttemptingTrigger # as"
    by (simp add: run_harvest_def loop_actions_ui)
  with a show ?thesis by blast
qed

lemma call_result [simp]: "snd (call a r w) = snd r"
  by (simp add: call_def)

lemma call_state [simp]: "fst (fst (call a r w)) = state_after (fst r) (fst w)"
  by (simp add: call_def)

lemma call_trace [simp]:
  "loop_actions (snd (fst (call a r w))) = loop_actions (snd w) @ loop_actions [a]"
  by (simp add: call_def)

lemma at_login_test_trace [simp]:
  "loop_actions (snd (at_login_test env w)) = loop_actions (snd w)"
  by (simp add: at_login_test_def)



lemmas tick_defs =
  tick_def refresh_branch_def login_branch_def harvest_branch_def call_def sleep_def
  run_harvest_def deliver_def emit_def upd_def at_login_test_def

lemmas harvest_defs =
  perform_harvest_def interaction_def terms_dialog_def dismiss_def popup_selectors_def
  send_hello_def stuck_page_def quiet_page_def

lemma stuck_harvest:
  "page s \<Longrightarrow> perform_harvest stuck_page (s, tr) =
     (s, tr @ [Print AttemptingTrigger, IsVisible DialogContent, IsVisible PopupClose,
               IsVisible PopupGotIt, IsVisible PopupOK, Print WaitingForEditor,
               WaitVisible Editor 5000, Print EditorNotFound])"
  by (simp add: harvest_defs emit_def)


lemma login_url: "str_in ''accounts.google.com'' ''https://accounts.google.com/v3''"
  by simp

lemma vertex_url: "\<not> str_in ''accounts.google.com'' ''https://c/vertex''"
  by simp

lemma vertex_title: "\<not> str_in ''Sign in'' ''Vertex AI''"
  by simp

section \<open>Facts about the session loop\<close>

lemma engine_flow:
  "engine a r w =
     (deliver (fst r) (emit [a] w), case snd r of None \<Rightarrow> Normal | Some e \<Rightarrow> Throw e)"
  by (simp add: engine_def call_def split: option.split)

lemma iteration_never_throws: "snd (session_iteration loads env w) \<noteq> Throw e"
  by (simp add: session_iteration_def split: prod.split flow.split)




lemma load_cookies_bad:
  assumes "current_cookies (fst w) = Some c" and "c \<noteq> []" and "loads c = Inl JSONDecodeError"
  shows "load_cookies loads env w =
     (sleep 10 (decode_sleep env)
        (upd (\<lambda>s. s\<lparr>current_cookies := None\<rparr>) (emit [Print InvalidJSON] w)), Continue)"
  using assms by (simp add: load_cookies_def decode_and_add_def)

lemmas session_defs =
  session_iteration_def session_body_def with_block_def engine_def call_def plain_def
  load_cookies_def decode_and_add_def open_page_def navigate_def run_liveness_def
  sleep_def deliver_def emit_def upd_def


section \<open>Only a stop request clears the running flag\<close>

lemma analyze_running: "is_running (fst (fst (analyze r w))) = is_running (fst w)"
  by (simp add: analyze_def Let_def split: sum.split option.split)

lemma handle_route_running: "is_running (fst (fst (handle_route r w))) = is_running (fst w)"
  using analyze_running [of r w]
  by (auto simp: handle_route_def Let_def split: prod.splits option.splits)

lemma dispatch_running:
  "is_running (fst (dispatch ev w)) \<longleftrightarrow> is_running (fst w) \<and> ev \<noteq> StopEvent"
  by (cases ev) (simp_all add: handle_route_running handle_response_def update_cookies_def stop_def)

lemma deliver_running:
  "is_running (fst (deliver evs w)) \<longleftrightarrow> is_running (fst w) \<and> StopEvent \<notin> set evs"
proof (induction evs arbitrary: w)
  case Nil
  show ?case by simp
next
  case (Cons ev evs)
  have "is_running (fst (deliver evs (dispatch ev w))) \<longleftrightarrow>
      is_running (fst (dispatch ev w)) \<and> StopEvent \<notin> set evs"
    by (rule Cons.IH)
  then show ?case by (auto simp: dispatch_running simp del: deliver_state)
qed

lemma state_after_running:
  "is_running (state_after evs s) \<longleftrightarrow> is_running s \<and> StopEvent \<notin> set evs"
  using deliver_running [of evs "(s, [])"] by (simp add: state_after_def del: deliver_state)

lemma harvest_branch_running:
  "StopEvent \<notin> set (tick_events env) \<Longrightarrow> is_running (fst w) \<Longrightarrow>
     is_running (fst (fst (harvest_branch env w)))"
  by (simp add: harvest_branch_def Let_def tick_events_def state_after_running)

lemma login_branch_running:
  assumes "StopEvent \<notin> set (tick_events env)" and "is_running (fst w)"
  shows "is_running (fst (fst (login_branch env w)))"
proof (cases "snd (login_goto env)")
  case None
  with assms show ?thesis
    by (simp add: login_branch_def Let_def call_def tick_events_def state_after_running)
next
  case (Some e)
  define w2 where "w2 = deliver (fst (login_goto env))
      (emit [Goto] (upd (\<lambda>s. s\<lparr>last_login_retry_time := login_time env\<rparr>)
                      (emit [Print RedirectedToLogin] w)))"
  have "is_running (fst w2)"
    using assms by (simp add: w2_def tick_events_def state_after_running)
  with assms(1) have "is_running (fst (fst (harvest_branch env w2)))"
    by (rule harvest_branch_running)
  with Some assms(2) show ?thesis
    by (simp add: login_branch_def Let_def call_def w2_def)
qed

lemma refresh_branch_running:
  assumes "StopEvent \<notin> set (tick_events env)" and "is_running (fst w)"
  shows "is_running (fst (fst (refresh_branch env w)))"
  using assms
  by (cases "snd (reload env)")
    (simp_all add: refresh_branch_def Let_def call_def tick_events_def state_after_running)

lemma tick_running:
  assumes "StopEvent \<notin> set (tick_events env)" and "is_running (fst w)"
  shows "is_running (fst (fst (tick env w)))"
proof -
  have "is_running (fst (deliver (fst (page_title env)) w))"
    using assms by (simp add: tick_events_def state_after_running)
  then show ?thesis
    using assms
    by (auto simp: tick_def Let_def refresh_branch_running login_branch_running
        harvest_branch_running simp del: deliver_state split: sum.split)
qed

lemma liveness_loop_running:
  "StopEvent \<notin> set (concat (map tick_events ts)) \<Longrightarrow> is_running (fst w) \<Longrightarrow>
     is_running (fst (fst (liveness_loop ts w)))"
proof (induction ts arbitrary: w)
  case Nil
  then show ?case by simp
next
  case (Cons t ts)
  obtain w' x where tk: "tick t w = (w', x)" by (cases "tick t w")
  from Cons.prems have "is_running (fst (fst (tick t w)))"
    by (simp add: tick_running)
  with tk have r: "is_running (fst w')" by simp
  from Cons.prems have "StopEvent \<notin> set (concat (map tick_events ts))" by simp
  from Cons.IH [OF this r] tk r Cons.prems(2) show ?case
    by (cases x) simp_all
qed

lemma keeps_runningD:
  "keeps_running f \<Longrightarrow> is_running (fst w) \<Longrightarrow> f w = (w', x) \<Longrightarrow> is_running (fst w')"
  by (metis keeps_running_def fst_conv)

lemma steps_running: "list_all keeps_running fs \<Longrightarrow> keeps_running (steps fs)"
proof (induction fs)
  case Nil
  show ?case by (simp add: keeps_running_def)
next
  case (Cons f fs)
  then have f: "keeps_running f" and fs: "keeps_running (steps fs)" by simp_all
  show ?case
    unfolding keeps_running_def
  proof (intro allI impI)
    fix w :: world
    assume r: "is_running (fst w)"
    obtain w' x where fw: "f w = (w', x)" by (cases "f w")
    from f r fw have r': "is_running (fst w')" by (rule keeps_runningD)
    with fs have "is_running (fst (fst (steps fs w')))" by (metis keeps_running_def)
    with fw r' show "is_running (fst (fst (steps (f # fs) w)))"
      by (cases x) simp_all
  qed
qed

lemma engine_running: "StopEvent \<notin> set (fst r) \<Longrightarrow> keeps_running (engine a r)"
  by (simp add: keeps_running_def engine_flow state_after_running)

lemma plain_running:
  "(\<And>w. is_running (fst w) \<Longrightarrow> is_running (fst (f w))) \<Longrightarrow> keeps_running (plain f)"
  by (simp add: keeps_running_def plain_def)

lemma load_cookies_running:
  assumes "StopEvent \<notin> set (fst (add_cookies env))" and "StopEvent \<notin> set (decode_sleep env)"
  shows "keeps_running (load_cookies loads env)"
  using assms
  by (auto simp: keeps_running_def load_cookies_def decode_and_add_def call_def
      state_after_running split: option.split sum.split)

lemma open_page_running:
  "StopEvent \<notin> set (fst (new_page env)) \<Longrightarrow> keeps_running (open_page env)"
  by (auto simp: keeps_running_def open_page_def call_def state_after_running
      split: option.split)

lemma navigate_running:
  "StopEvent \<notin> set (fst (first_goto env)) \<Longrightarrow> keeps_running (navigate env)"
  by (auto simp: keeps_running_def navigate_def call_def state_after_running
      split: option.split)

lemma run_liveness_running:
  assumes "StopEvent \<notin> set (concat (map tick_events (ticks env)))"
  shows "keeps_running (run_liveness env)"
  unfolding keeps_running_def
proof (intro allI impI)
  fix w :: world
  assume "is_running (fst w)"
  with assms have l: "is_running (fst (fst (liveness_loop (ticks env) w)))"
    by (rule liveness_loop_running)
  obtain w' x where "liveness_loop (ticks env) w = (w', x)"
    by (cases "liveness_loop (ticks env) w")
  with l show "is_running (fst (fst (run_liveness env w)))"
    by (cases x) (simp_all add: run_liveness_def)
qed

lemma with_block_running:
  assumes "unstopped env"
  shows "keeps_running (with_block loads env)"
  unfolding with_block_def
  using assms
  by (intro steps_running)
    (simp add: unstopped_def session_events_def engine_running plain_running
      load_cookies_running open_page_running navigate_running run_liveness_running)

lemma session_iteration_running:
  assumes "unstopped env" and "is_running (fst w)"
  shows "is_running (fst (fst (session_iteration loads env w)))"
proof -
  define w1 where "w1 = deliver (fst (playwright_start env)) (emit [StartPlaywright] w)"
  have r1: "is_running (fst w1)"
    using assms by (simp add: w1_def unstopped_def session_events_def state_after_running)
  obtain w2 x where wb: "with_block loads env w1 = (w2, x)"
    by (cases "with_block loads env w1")
  have r2: "is_running (fst w2)"
    using with_block_running [OF assms(1), of loads] r1 wb by (rule keeps_runningD)
  have quiet_exit: "StopEvent \<notin> set (fst (playwright_stop env))"
    and quiet_sleep: "StopEvent \<notin> set (backoff_sleep env)"
    using assms(1) by (simp_all add: unstopped_def session_events_def)
  obtain w3 y where b: "session_body loads env w = (w3, y)"
    by (cases "session_body loads env w")
  have "is_running (fst w3)"
    using b wb r1 r2 quiet_exit
    by (auto simp: session_body_def engine_flow w1_def state_after_running
        split: option.splits flow.splits)
  with b quiet_sleep show ?thesis
    by (cases y) (simp_all add: session_iteration_def state_after_running)
qed

lemma session_loop_unstopped:
  "list_all unstopped envs \<Longrightarrow> is_running (fst w) \<Longrightarrow>
     snd (session_loop loads envs w) = OutOfFuel"
proof (induction envs arbitrary: w)
  case Nil
  then show ?case by simp
next
  case (Cons env envs)
  obtain w' x where i: "session_iteration loads env w = (w', x)"
    by (cases "session_iteration loads env w")
  from Cons.prems have "is_running (fst (fst (session_iteration loads env w)))"
    by (simp add: session_iteration_running)
  with i have r: "is_running (fst w')" by simp
  from Cons.prems have "list_all unstopped envs" by simp
  from Cons.IH [OF this r] have ih: "snd (session_loop loads envs w') = OutOfFuel" .
  have "\<forall>e. x \<noteq> Throw e"
    using iteration_never_throws [of loads env w] i by simp
  with i ih Cons.prems(2) show ?case
    by (cases x) simp_all
qed

lemma start_unstopped:
  "list_all unstopped envs \<Longrightarrow> \<not> is_running (fst w) \<Longrightarrow>
     snd (start loads envs w) = OutOfFuel"
  by (simp add: start_def Let_def session_loop_unstopped)

section \<open>A complete run\<close>

text \<open>
  A fresh harvester without cookies, started on a page that shows no editor, with fuel for
  one pass of each loop: the browser is set up, the first pass of the liveness loop enters
  the interaction procedure, and the loop is still running when the fuel ends.
\<close>

lemma fresh_start_run:
  "start toy_loads [session0\<lparr>ticks := [tick0]\<rparr>] (init None, []) =
     ((init None\<lparr>is_running := True, page := True\<rparr>,
       [Print NoCookiesAvailable, Print Starting, StartPlaywright, Launch, NewContext,
        NewPage, InstallRoute, OnResponse, Print Navigating, Goto,
        Print AttemptingTrigger, IsVisible DialogContent, IsVisible PopupClose,
        IsVisible PopupGotIt, IsVisible PopupOK, Print WaitingForEditor,
        WaitVisible Editor 5000, Print EditorNotFound, Sleep 5]),
      OutOfFuel)"
  by (simp add: start_def session_defs tick_defs session0_def tick0_def init_def stuck_harvest)

section \<open>The request interceptor\<close>

text \<open>
  C3.  For every interception, whatever the request, the outcome of reading its body and
  the behaviour of the sink, \<^verbatim>\<open>handle_route\<close> makes exactly one call on the route, and
  that call is \<^verbatim>\<open>route.continue_()\<close> without overrides: the request is neither dropped
  nor changed.  (\<^verbatim>\<open>request.url\<close> and \<^verbatim>\<open>request.method\<close>, read before the \<^verbatim>\<open>try\<close>,
  are stored attributes and do not raise.)
\<close>

theorem handle_route_continues_once:
  "filter is_route_call (snd (fst (handle_route r w))) =
     filter is_route_call (snd w) @ [RouteCall ContinueUnmodified]"
proof (cases "analyze r w")
  case (Pair w' x)
  with analyze_route_calls [of r w] show ?thesis
    by (cases x) (simp_all add: handle_route_def Let_def)
qed

theorem handle_route_continues_once_witness:
  "filter is_route_call (snd (fst (handle_route route0 (state0, [])))) =
     [RouteCall ContinueUnmodified] \<and>
   filter is_route_call (snd (fst (handle_route route_sink_down (state0, [])))) =
     [RouteCall ContinueUnmodified] \<and>
   filter is_route_call (snd (fst (handle_route route_undecodable (state0, [])))) =
     [RouteCall ContinueUnmodified]"
  using handle_route_continues_once [of route0 "(state0, [])"]
    handle_route_continues_once [of route_sink_down "(state0, [])"]
    handle_route_continues_once [of route_undecodable "(state0, [])"]
  by simp

text \<open>
  C6.  When the request is to the target endpoint with method POST, its body contains a
  generation marker, and the sink's \<^verbatim>\<open>update\<close> returns, the interceptor hands the
  dictionary of URL, method, headers and body to the sink, sets \<^verbatim>\<open>last_harvest_time\<close>
  to the clock reading taken after that call and \<^verbatim>\<open>last_login_retry_time\<close> to 0, and
  lets the request continue.
\<close>

theorem capture_forwards_then_records:
  assumes "qualifies (route_request r) b" and "sink_update r = None"
  shows "fst (handle_route r w) =
     ((fst w)\<lparr>last_harvest_time := capture_time r, last_login_retry_time := 0\<rparr>,
      snd w @ [Print CapturedTarget,
               SinkUpdate \<lparr>url = req_url (route_request r), method = req_method (route_request r),
                          headers = req_headers (route_request r), body = b\<rparr>,
               RouteCall ContinueUnmodified])"
  using assms qualifies_nonempty [OF assms(1)]
  by (simp add: qualifies_def handle_route_def analyze_def Let_def emit_def upd_def)

theorem capture_forwards_then_records_witness:
  "qualifies (route_request route0) ''{generateContent}'' \<and> sink_update route0 = None \<and>
   fst (handle_route route0 (state0, [])) =
     (state0\<lparr>last_harvest_time := 5000, last_login_retry_time := 0\<rparr>,
      [Print CapturedTarget,
       SinkUpdate \<lparr>url = ''https://c/batchGraphql'', method = ''POST'',
                  headers = [(''cookie'', ''sid=1'')], body = ''{generateContent}''\<rparr>,
       RouteCall ContinueUnmodified])"
proof -
  have q: "qualifies (route_request route0) ''{generateContent}''"
    by (simp add: qualifies_def example_defs)
  have u: "sink_update route0 = None"
    by (simp add: example_defs)
  show ?thesis
    using q u capture_forwards_then_records [OF q u, of "(state0, [])"]
    by (simp add: example_defs)
qed

text \<open>
  C10.  When the sink's \<^verbatim>\<open>update\<close> raises on a qualifying request, the exception is
  printed and dropped, no attribute of the harvester changes (in particular neither
  \<^verbatim>\<open>last_harvest_time\<close> nor \<^verbatim>\<open>last_login_retry_time\<close>), and the request continues.
\<close>

theorem sink_failure_records_nothing:
  assumes "qualifies (route_request r) b" and "sink_update r = Some e"
  shows "fst (handle_route r w) =
     (fst w,
      snd w @ [Print CapturedTarget,
               SinkUpdate \<lparr>url = req_url (route_request r), method = req_method (route_request r),
                          headers = req_headers (route_request r), body = b\<rparr>,
               Print (ErrorAnalyzing e),
               RouteCall ContinueUnmodified])"
  using assms qualifies_nonempty [OF assms(1)]
  by (simp add: qualifies_def handle_route_def analyze_def Let_def emit_def upd_def)

theorem sink_failure_records_nothing_witness:
  "qualifies (route_request route_sink_down) ''{generateContent}'' \<and>
   sink_update route_sink_down = Some (OtherException ''sink'') \<and>
   fst (fst (handle_route route_sink_down (state0, []))) = state0 \<and>
   last_harvest_time (fst (fst (handle_route route_sink_down (state0, [])))) = 0 \<and>
   last_login_retry_time (fst (fst (handle_route route_sink_down (state0, [])))) = 1000"
proof -
  have q: "qualifies (route_request route_sink_down) ''{generateContent}''"
    by (simp add: qualifies_def example_defs)
  have u: "sink_update route_sink_down = Some (OtherException ''sink'')"
    by (simp add: example_defs)
  show ?thesis
    using q u sink_failure_records_nothing [OF q u, of "(state0, [])"]
    by (simp add: state0_def)
qed

section \<open>The response observer\<close>

text \<open>
  C4.  \<^verbatim>\<open>handle_response\<close> raises nothing.  When the response URL contains
  \<^verbatim>\<open>batchGraphql\<close> and the status is 401 or 403 it sets \<^verbatim>\<open>refresh_needed\<close> and changes
  no other attribute; for any other status or URL it changes nothing at all.  So the flag
  is set afterwards exactly when it was set before or the response is such a one.
\<close>

theorem handle_response_marks_refresh:
  "snd (handle_response r w) = None \<and>
   (unauthorized r \<longrightarrow> fst (fst (handle_response r w)) = (fst w)\<lparr>refresh_needed := True\<rparr>) \<and>
   (\<not> unauthorized r \<longrightarrow> fst (handle_response r w) = w) \<and>
   (refresh_needed (fst (fst (handle_response r w))) \<longleftrightarrow>
      refresh_needed (fst w) \<or> unauthorized r)"
  by (auto simp: handle_response_def unauthorized_def)

theorem handle_response_marks_refresh_witness:
  "unauthorized response401 \<and> \<not> unauthorized response200 \<and>
   snd (handle_response response401 (state0, [])) = None \<and>
   fst (fst (handle_response response401 (state0, []))) = state0\<lparr>refresh_needed := True\<rparr> \<and>
   fst (handle_response response200 (state0, [])) = (state0, [])"
proof -
  have a: "unauthorized response401" and b: "\<not> unauthorized response200"
    by (simp_all add: unauthorized_def example_defs)
  show ?thesis
    using a b handle_response_marks_refresh [of response401 "(state0, [])"]
      handle_response_marks_refresh [of response200 "(state0, [])"]
    by simp
qed

section \<open>The interaction procedure\<close>

text \<open>
  C9.  When the wait for the editor (line 208) raises, \<^verbatim>\<open>perform_harvest\<close> leaves every
  attribute of the harvester as it was, so \<^verbatim>\<open>refresh_needed\<close> is not set, and it records
  no \<^verbatim>\<open>fill\<close> and no \<^verbatim>\<open>press\<close>.  When the page is open and the terms dialog did not
  raise, the wait is reached and the trace ends with that wait and the print of line 210.
\<close>

theorem editor_timeout_aborts:
  assumes "editor_wait env = Some e"
  shows "fst (perform_harvest env w) = fst w \<and>
         refresh_needed (fst (perform_harvest env w)) = refresh_needed (fst w) \<and>
         filter input_action (snd (perform_harvest env w)) = filter input_action (snd w) \<and>
         (page (fst w) \<and> snd (terms_dialog env) = None \<longrightarrow>
            (\<exists>as. snd (perform_harvest env w) =
                    snd w @ as @ [WaitVisible Editor 5000, Print EditorNotFound]))"
proof -
  obtain a1 r1 where t: "terms_dialog env = (a1, r1)" by (cases "terms_dialog env")
  have n1: "filter input_action a1 = []"
    using terms_dialog_no_input [of env] t by simp
  have s: "send_hello env =
      ([Print WaitingForEditor, WaitVisible Editor 5000, Print EditorNotFound], None)"
    using assms by (rule send_hello_failed_wait)
  have "filter input_action (snd (perform_harvest env w)) = filter input_action (snd w)"
    using t n1 s
    by (cases r1)
      (simp_all add: perform_harvest_def interaction_def Let_def popup_selectors_def
        dismiss_no_input)
  moreover have "page (fst w) \<and> snd (terms_dialog env) = None \<longrightarrow>
      (\<exists>as. snd (perform_harvest env w) =
              snd w @ as @ [WaitVisible Editor 5000, Print EditorNotFound])"
  proof
    assume h: "page (fst w) \<and> snd (terms_dialog env) = None"
    with t have "r1 = None" by simp
    with h t s have "snd (perform_harvest env w) =
        snd w @ (Print AttemptingTrigger # a1 @ concat (map (dismiss env) popup_selectors)
                 @ [Print WaitingForEditor])
              @ [WaitVisible Editor 5000, Print EditorNotFound]"
      by (simp add: perform_harvest_def interaction_def Let_def)
    then show "\<exists>as. snd (perform_harvest env w) =
        snd w @ as @ [WaitVisible Editor 5000, Print EditorNotFound]" by blast
  qed
  ultimately show ?thesis by simp
qed

theorem editor_timeout_aborts_witness:
  "editor_wait stuck_page = Some (OtherException ''Timeout'') \<and>
   page state0 \<and> snd (terms_dialog stuck_page) = None \<and>
   perform_harvest stuck_page (state0, []) =
     (state0, [Print AttemptingTrigger, IsVisible DialogContent, IsVisible PopupClose,
               IsVisible PopupGotIt, IsVisible PopupOK, Print WaitingForEditor,
               WaitVisible Editor 5000, Print EditorNotFound]) \<and>
   filter input_action (snd (perform_harvest stuck_page (state0, []))) = []"
proof -
  have a: "editor_wait stuck_page = Some (OtherException ''Timeout'')"
    by (simp add: stuck_page_def quiet_page_def)
  have b: "perform_harvest stuck_page (state0, []) =
     (state0, [Print AttemptingTrigger, IsVisible DialogContent, IsVisible PopupClose,
               IsVisible PopupGotIt, IsVisible PopupOK, Print WaitingForEditor,
               WaitVisible Editor 5000, Print EditorNotFound])"
    by (simp add: perform_harvest_def interaction_def terms_dialog_def dismiss_def
        popup_selectors_def send_hello_def stuck_page_def quiet_page_def state0_def emit_def)
  show ?thesis
    using a b editor_timeout_aborts [OF a, of "(state0, [])"]
    by (simp add: terms_dialog_def stuck_page_def quiet_page_def state0_def)
qed

section \<open>One pass of the liveness loop\<close>

text \<open>
  C2.  A pass that starts with \<^verbatim>\<open>refresh_needed\<close> set takes case A and ends with
  \<^verbatim>\<open>continue\<close>, whatever the clock and the page say.  When the reload returns, the loop
  reloads, clears the flag, sleeps 5 seconds and enters \<^verbatim>\<open>perform_harvest\<close> once; the
  loop's own actions are exactly these followed by the procedure's, so there is no
  navigation of case B, no second entry from case C and no polling sleep.  The state is the
  one the callbacks leave around the clearing of the flag.  When the reload raises, the
  loop prints and does nothing else: the flag stays set and the state is the one the
  callbacks left during the reload.
\<close>

theorem refresh_runs_first:
  assumes "refresh_needed (fst w)"
  shows "snd (tick env w) = Next \<and>
    (snd (reload env) = None \<longrightarrow>
       fst (fst (tick env w)) =
         state_after (refresh_sleep env @ snd (refresh_harvest env))
           ((state_after (fst (reload env)) (fst w))\<lparr>refresh_needed := False\<rparr>) \<and>
       (\<exists>as. list_all ui_action as \<and>
          loop_actions (snd (fst (tick env w))) =
            loop_actions (snd w) @
              [Print TokenExpiredRefreshing, Reload, Print PageReloaded, Sleep 5,
               Print AttemptingTrigger] @ as)) \<and>
    (\<forall>e. snd (reload env) = Some e \<longrightarrow>
       fst (fst (tick env w)) = state_after (fst (reload env)) (fst w) \<and>
       refresh_needed (fst (fst (tick env w))) \<and>
       loop_actions (snd (fst (tick env w))) =
         loop_actions (snd w) @ [Print TokenExpiredRefreshing, Reload, Print (RefreshFailed e)])"
proof (cases "snd (reload env)")
  case None
  define w3 where "w3 = sleep 5 (refresh_sleep env)
      (upd (\<lambda>s. s\<lparr>refresh_needed := False\<rparr>)
        (emit [Print PageReloaded]
          (fst (call Reload (reload env) (emit [Print TokenExpiredRefreshing] w)))))"
  have t: "tick env w = (run_harvest (refresh_harvest env) w3, Next)"
    using assms None
    by (simp add: tick_def refresh_branch_def w3_def Let_def call_def)
  have tr3: "loop_actions (snd w3) =
      loop_actions (snd w) @ [Print TokenExpiredRefreshing, Reload, Print PageReloaded, Sleep 5]"
    by (simp add: w3_def)
  obtain as where a: "list_all ui_action as"
    and b: "loop_actions (snd (run_harvest (refresh_harvest env) w3)) =
             loop_actions (snd w3) @ Print AttemptingTrigger # as"
    using trace_run_harvest by blast
  have "loop_actions (snd (fst (tick env w))) =
      loop_actions (snd w) @
        [Print TokenExpiredRefreshing, Reload, Print PageReloaded, Sleep 5,
         Print AttemptingTrigger] @ as"
    using t tr3 b by simp
  with a have ex: "\<exists>as. list_all ui_action as \<and>
      loop_actions (snd (fst (tick env w))) =
        loop_actions (snd w) @
          [Print TokenExpiredRefreshing, Reload, Print PageReloaded, Sleep 5,
           Print AttemptingTrigger] @ as" by blast
  have st: "fst (fst (tick env w)) =
      state_after (refresh_sleep env @ snd (refresh_harvest env))
        ((state_after (fst (reload env)) (fst w))\<lparr>refresh_needed := False\<rparr>)"
    using t by (simp add: w3_def state_after_append)
  from t None ex st show ?thesis by simp
next
  case (Some e)
  have t: "tick env w =
      (emit [Print (RefreshFailed e)]
         (fst (call Reload (reload env) (emit [Print TokenExpiredRefreshing] w))), Next)"
    using assms Some
    by (simp add: tick_def refresh_branch_def call_def)
  have "refresh_needed (state_after (fst (reload env)) (fst w))"
    using assms by (rule state_after_refresh)
  with t Some show ?thesis by simp
qed

theorem refresh_runs_first_witness:
  "refresh_needed (fst (state0\<lparr>refresh_needed := True\<rparr>, [])) \<and>
   snd (reload tick0) = None \<and>
   2700 < harvest_time tick0 - last_harvest_time state0 \<and>
   tick tick0 (state0\<lparr>refresh_needed := True\<rparr>, []) =
     ((state0, [Print TokenExpiredRefreshing, Reload, Print PageReloaded, Sleep 5,
                Print AttemptingTrigger, IsVisible DialogContent, IsVisible PopupClose,
                IsVisible PopupGotIt, IsVisible PopupOK, Print WaitingForEditor,
                WaitVisible Editor 5000, Print EditorNotFound]), Next) \<and>
   tick (tick0\<lparr>reload := ([], Some (OtherException ''Timeout''))\<rparr>)
        (state0\<lparr>refresh_needed := True\<rparr>, []) =
     ((state0\<lparr>refresh_needed := True\<rparr>,
       [Print TokenExpiredRefreshing, Reload, Print (RefreshFailed (OtherException ''Timeout''))]),
      Next)"
proof -
  have a: "refresh_needed (fst (state0\<lparr>refresh_needed := True\<rparr>, []))" by simp
  have b: "tick tick0 (state0\<lparr>refresh_needed := True\<rparr>, []) =
     ((state0, [Print TokenExpiredRefreshing, Reload, Print PageReloaded, Sleep 5,
                Print AttemptingTrigger, IsVisible DialogContent, IsVisible PopupClose,
                IsVisible PopupGotIt, IsVisible PopupOK, Print WaitingForEditor,
                WaitVisible Editor 5000, Print EditorNotFound]), Next)"
    by (simp add: tick_defs tick0_def stuck_harvest state0_def)
  have c: "tick (tick0\<lparr>reload := ([], Some (OtherException ''Timeout''))\<rparr>)
        (state0\<lparr>refresh_needed := True\<rparr>, []) =
     ((state0\<lparr>refresh_needed := True\<rparr>,
       [Print TokenExpiredRefreshing, Reload, Print (RefreshFailed (OtherException ''Timeout''))]),
      Next)"
    by (simp add: tick_defs tick0_def)
  show ?thesis
    using a b c refresh_runs_first [OF a, of tick0]
    by (simp add: tick0_def state0_def)
qed






section \<open>The session loop\<close>

text \<open>
  C7.  Suppose the context manager, the launch and the new context succeed, and the cookies
  read on line 50 are a non-empty string on which \<^verbatim>\<open>json.loads\<close> raises
  \<^verbatim>\<open>JSONDecodeError\<close>.  Then the pass raises nothing out of the outer \<^verbatim>\<open>try\<close>: it
  prints, sets \<^verbatim>\<open>current_cookies\<close> to \<^verbatim>\<open>None\<close>, sleeps 10 seconds and leaves the
  context manager; no page is opened and the liveness loop is not entered.  The outer loop
  then goes on with its next pass.  (Should leaving the context manager raise, the outer
  handler adds its own print and sleep.)
\<close>

theorem malformed_cookies_back_off:
  assumes "snd (playwright_start env) = None" and "snd (launch env) = None"
    and "snd (new_context env) = None"
    and "current_cookies (state_after (setup_events env) (fst w)) = Some c"
    and "c \<noteq> []" and "loads c = Inl JSONDecodeError"
  shows "snd (session_iteration loads env w) \<noteq> Throw e \<and>
    snd (session_iteration loads env w) \<noteq> Starving \<and>
    fst (fst (session_iteration loads env w)) =
      state_after
        (decode_sleep env @ fst (playwright_stop env) @
           (case snd (playwright_stop env) of None \<Rightarrow> [] | Some e' \<Rightarrow> backoff_sleep env))
        ((state_after (setup_events env) (fst w))\<lparr>current_cookies := None\<rparr>) \<and>
    loop_actions (snd (fst (session_iteration loads env w))) =
      loop_actions (snd w) @
        [StartPlaywright, Launch, NewContext, Print InvalidJSON, Sleep 10, StopPlaywright] @
        (case snd (playwright_stop env) of
           None \<Rightarrow> [] | Some e' \<Rightarrow> [Print (HarvesterError e'), Sleep 10]) \<and>
    (is_running (fst w) \<longrightarrow>
       session_loop loads (env # envs) w =
         session_loop loads envs (fst (session_iteration loads env w)))"
proof -
  define w1 where "w1 = deliver (fst (playwright_start env)) (emit [StartPlaywright] w)"
  define w2 where "w2 = deliver (fst (new_context env))
      (emit [NewContext] (deliver (fst (launch env)) (emit [Launch] w1)))"
  define wc where "wc = sleep 10 (decode_sleep env)
      (upd (\<lambda>s. s\<lparr>current_cookies := None\<rparr>) (emit [Print InvalidJSON] w2))"
  define w3 where "w3 = deliver (fst (playwright_stop env)) (emit [StopPlaywright] wc)"
  have s2: "fst w2 = state_after (setup_events env) (fst w)"
    by (simp add: w2_def w1_def setup_events_def state_after_append)
  have t2: "loop_actions (snd w2) = loop_actions (snd w) @ [StartPlaywright, Launch, NewContext]"
    by (simp add: w2_def w1_def)
  have lc: "load_cookies loads env w2 = (wc, Continue)"
    using assms(4-6) s2 by (simp add: load_cookies_bad wc_def)
  have wb: "with_block loads env w1 = (wc, Continue)"
    using assms(2,3) lc by (simp add: with_block_def engine_flow w2_def)
  have sc: "fst wc = state_after (decode_sleep env)
      ((state_after (setup_events env) (fst w))\<lparr>current_cookies := None\<rparr>)"
    by (simp add: wc_def s2)
  have tc: "loop_actions (snd wc) =
      loop_actions (snd w) @ [StartPlaywright, Launch, NewContext, Print InvalidJSON, Sleep 10]"
    by (simp add: wc_def t2)
  have body: "session_body loads env w =
      (w3, case snd (playwright_stop env) of None \<Rightarrow> Continue | Some e' \<Rightarrow> Throw e')"
    using assms(1) wb
    by (simp add: session_body_def engine_flow w1_def w3_def split: option.split)
  have s3: "fst w3 = state_after (decode_sleep env @ fst (playwright_stop env))
      ((state_after (setup_events env) (fst w))\<lparr>current_cookies := None\<rparr>)"
    by (simp add: w3_def sc state_after_append)
  have t3: "loop_actions (snd w3) = loop_actions (snd w) @
      [StartPlaywright, Launch, NewContext, Print InvalidJSON, Sleep 10, StopPlaywright]"
    by (simp add: w3_def tc)
  show ?thesis
  proof (cases "snd (playwright_stop env)")
    case None
    with body have i: "session_iteration loads env w = (w3, Continue)"
      by (simp add: session_iteration_def)
    with None s3 t3 show ?thesis by simp
  next
    case (Some e')
    with body have i: "session_iteration loads env w =
        (sleep 10 (backoff_sleep env) (emit [Print (HarvesterError e')] w3), Normal)"
      by (simp add: session_iteration_def)
    with Some s3 t3 show ?thesis by (simp add: state_after_append)
  qed
qed

theorem malformed_cookies_back_off_witness:
  "snd (playwright_start session0) = None \<and> snd (launch session0) = None \<and>
   snd (new_context session0) = None \<and>
   current_cookies (state_after (setup_events session0)
      (fst (state0\<lparr>current_cookies := Some ''{oops''\<rparr>, []))) = Some ''{oops'' \<and>
   toy_loads ''{oops'' = Inl JSONDecodeError \<and>
   session_iteration toy_loads session0 (state0\<lparr>current_cookies := Some ''{oops''\<rparr>, []) =
     ((state0, [StartPlaywright, Launch, NewContext, Print InvalidJSON, Sleep 10,
                StopPlaywright]), Continue)"
proof -
  have a: "snd (playwright_start session0) = None" and b: "snd (launch session0) = None"
    and c: "snd (new_context session0) = None"
    by (simp_all add: session0_def)
  have d: "current_cookies (state_after (setup_events session0)
      (fst (state0\<lparr>current_cookies := Some ''{oops''\<rparr>, []))) = Some ''{oops''"
    by (simp add: setup_events_def session0_def)
  have e: "''{oops'' \<noteq> []" by simp
  have f: "toy_loads ''{oops'' = Inl JSONDecodeError" by (simp add: toy_loads_def)
  have g: "session_iteration toy_loads session0
      (state0\<lparr>current_cookies := Some ''{oops''\<rparr>, []) =
     ((state0, [StartPlaywright, Launch, NewContext, Print InvalidJSON, Sleep 10,
                StopPlaywright]), Continue)"
    by (simp add: session_defs session0_def state0_def toy_loads_def)
  show ?thesis
    using a b c d f g
      malformed_cookies_back_off [where env = session0 and loads = toy_loads
        and w = "(state0\<lparr>current_cookies := Some ''{oops''\<rparr>, [])" and c = "''{oops''",
        OF a b c d e f]
    by simp
qed




end
